theory Spec2Isabelle
  imports Main "HOL-Library.Sublist"
begin

section \<open>The outside world of \<open>lock_and_capture.py\<close>\<close>

text \<open>
  The program is a straight-line script around four kinds of calls into its surroundings:
  OpenCV capture devices (\<open>cv2.VideoCapture\<close>, \<open>isOpened\<close>, \<open>set\<close>, \<open>read\<close>,
  \<open>release\<close>, \<open>cv2.imwrite\<close>), two functions of \<open>User32.dll\<close> (\<open>MessageBoxW\<close>,
  \<open>LockWorkStation\<close>), the clock and \<open>time.sleep\<close>. The model makes the answers of the
  surroundings an explicit environment, and every function returns its Python result
  together with the list of calls it made, in order.

  A call into the surroundings may answer by raising: its answer is an \<open>outcome\<close>, or,
  for the calls of \<open>run\<close> that no \<open>try\<close> of their own guards, a flag of the record
  \<open>unguarded\<close>. \<open>isOpened\<close>, the clock, the \<open>release\<close> calls of \<open>detect_camera\<close> and the
  \<open>time.sleep(0.5)\<close> of \<open>capture_image\<close> return normally. Log lines are not part of the
  model; asynchronous interrupts are outside it.
\<close>

datatype 'a outcome = Returns 'a | Raises

text \<open>An image buffer; \<open>None\<close> of type \<open>frame option\<close> is Python's \<open>None\<close>.\<close>

datatype frame = Frame nat

text \<open>What \<open>datetime.datetime.now()\<close> hands to \<open>strftime\<close>.\<close>

record datetime =
  year :: nat
  month :: nat
  day :: nat
  hour :: nat
  minute :: nat
  second :: nat

text \<open>
  A \<open>VideoCapture\<close> object, named by where it was constructed: by the probe loop of
  \<open>detect_camera\<close> for index \<open>i\<close>, or by \<open>capture_image\<close> for the camera id it was given.
  Each is constructed at most once in a run of the program.
\<close>

datatype handle = Probe nat | Capt int

text \<open>The message boxes of the program, by call site.\<close>

datatype dialog =
    NoticeStart
  | ConfirmNoCamera
  | NoticeCaptureFailed
  | NoticeLockFailed
  | NoticeRunError
  | NoticeStartupFailed

text \<open>
  The calls a run makes. \<open>Open h b\<close>: the constructor returned object \<open>h\<close> whose
  \<open>isOpened()\<close> is \<open>b\<close>; \<open>OpenRaised h\<close>: the constructor raised, no object exists.
  \<open>CallDetect\<close>, \<open>CallCapture\<close> and \<open>CallLock\<close> mark the three method calls of \<open>run\<close>.
\<close>

datatype event =
    Dialog dialog
  | CallDetect
  | CallCapture int
  | CallLock
  | Open handle bool
  | OpenRaised handle
  | SetProp handle
  | Read handle
  | Release handle
  | Sleep nat
  | ImWrite string frame
  | LockWorkStation
  | Print

record env =
  windll_load :: "unit outcome"
  startup_dialog :: "int outcome"
  app_dir :: string
  probe_open :: "nat \<Rightarrow> bool outcome"
  probe_read :: "nat \<Rightarrow> (bool \<times> frame option) outcome"
  confirm_answer :: int
  capture_open :: "int \<Rightarrow> bool outcome"
  capture_set_width :: "bool outcome"
  capture_set_height :: "bool outcome"
  capture_read :: "nat \<Rightarrow> (bool \<times> frame option) outcome"
  now :: datetime
  imwrite :: "string \<Rightarrow> frame \<Rightarrow> bool outcome"
  lock_call :: "int outcome"

section \<open>\<open>lock_workstation\<close>\<close>

text \<open>
  \<^verbatim>\<open>
  try:
      result = self.user32.LockWorkStation()
      if result: return True
      else:      return False
  except Exception as e:
      return False
  \<close>
  \<open>LockWorkStation\<close> has \<open>restype = wintypes.BOOL\<close>, an integer; \<open>if result\<close> tests it
  against zero.
\<close>

definition lock_workstation :: "env \<Rightarrow> bool \<times> event list" where
  "lock_workstation e =
     (case lock_call e of
        Returns result \<Rightarrow>
          (if result \<noteq> 0 then (True, [LockWorkStation]) else (False, [LockWorkStation]))
      | Raises \<Rightarrow> (False, [LockWorkStation]))"

text \<open>
  \<open>emit evs p\<close>: the calls \<open>evs\<close> were made, then the computation \<open>p\<close> ran.
\<close>

definition emit :: "event list \<Rightarrow> 'a \<times> event list \<Rightarrow> 'a \<times> event list" where
  "emit evs p = (fst p, evs @ snd p)"

section \<open>\<open>detect_camera\<close>\<close>

text \<open>
  \<^verbatim>\<open>
  try:
      for i in range(5):
          cap = cv2.VideoCapture(i)
          if cap.isOpened():
              ret, _ = cap.read()
              if ret:
                  cap.release()
                  return i
              cap.release()
      return -1
  except Exception as e:
      return -1
  \<close>
  \<open>probe e is\<close> is the loop over the indices \<open>is\<close> still to be tried. An object that did
  not open is dropped without a \<open>release\<close>; an exception from the constructor or from
  \<open>read\<close> leaves the loop through the \<open>except\<close> clause, which returns \<open>-1\<close> and calls
  nothing.
\<close>

fun probe :: "env \<Rightarrow> nat list \<Rightarrow> int \<times> event list" where
  "probe e [] = (- 1, [])"
| "probe e (i # rest) =
     (case probe_open e i of
        Raises \<Rightarrow> (- 1, [OpenRaised (Probe i)])
      | Returns opened \<Rightarrow>
          (if opened then
             (case probe_read e i of
                Raises \<Rightarrow> (- 1, [Open (Probe i) True, Read (Probe i)])
              | Returns (ret, _) \<Rightarrow>
                  (if ret then
                     (int i, [Open (Probe i) True, Read (Probe i), Release (Probe i)])
                   else
                     emit [Open (Probe i) True, Read (Probe i), Release (Probe i)]
                       (probe e rest)))
           else emit [Open (Probe i) False] (probe e rest)))"

definition detect_camera :: "env \<Rightarrow> int \<times> event list" where
  "detect_camera e = probe e [0, 1, 2, 3, 4]"

section \<open>\<open>capture_image\<close>\<close>

text \<open>
  \<open>strftime("%Y%m%d_%H%M%S")\<close>: each field in decimal, zero-padded to four digits (the
  year, at most 9999 in Python) or to two.
\<close>

definition digit_char :: "nat \<Rightarrow> char" where
  "digit_char n = ''0123456789'' ! (n mod 10)"

definition pad2 :: "nat \<Rightarrow> string" where
  "pad2 n = [digit_char (n div 10), digit_char n]"

definition pad4 :: "nat \<Rightarrow> string" where
  "pad4 n = [digit_char (n div 1000), digit_char (n div 100), digit_char (n div 10), digit_char n]"

definition strftime :: "datetime \<Rightarrow> string" where
  "strftime t =
     pad4 (year t) @ pad2 (month t) @ pad2 (day t) @ ''_'' @
     pad2 (hour t) @ pad2 (minute t) @ pad2 (second t)"

text \<open>\<open>filename = f"capture_{timestamp}.jpg"\<close>\<close>

definition capture_filename :: "datetime \<Rightarrow> string" where
  "capture_filename t = ''capture_'' @ strftime t @ ''.jpg''"

text \<open>
  \<open>os.path.join(self.app_dir, filename)\<close> on Windows, for a directory that is the
  \<open>dirname\<close> of an absolute path and a plain file name: a backslash is put between the
  two unless the directory already ends in a separator.
\<close>

definition path_sep :: char where
  "path_sep = CHR 0x5C"

definition path_join :: "string \<Rightarrow> string \<Rightarrow> string" where
  "path_join d f =
     (if d \<noteq> [] \<and> last d \<noteq> path_sep \<and> last d \<noteq> CHR ''/'' then d @ [path_sep] @ f
      else d @ f)"

text \<open>
  \<^verbatim>\<open>
  for i in range(3):
      ret, frame = cap.read()
      if not ret:
          self.logger.error(...)
          continue
  \<close>
  Every iteration assigns both \<open>ret\<close> and \<open>frame\<close>; \<open>ret\<close> only decides whether a line is
  logged. The last argument is the variable \<open>frame\<close>; it is unbound before the first
  iteration, which always assigns it, so its initial value is never read.
\<close>

fun read_frames :: "env \<Rightarrow> handle \<Rightarrow> nat list \<Rightarrow> frame option \<Rightarrow> frame option outcome \<times> event list" where
  "read_frames e h [] frame = (Returns frame, [])"
| "read_frames e h (i # rest) frame =
     (case capture_read e i of
        Raises \<Rightarrow> (Raises, [Read h])
      | Returns (ret, frame') \<Rightarrow> emit [Read h] (read_frames e h rest frame'))"

text \<open>
  The \<open>try\<close> block of \<open>capture_image\<close> after the constructor has returned an object whose
  \<open>isOpened()\<close> is \<open>opened\<close>. Every exception lands in \<open>except Exception\<close>, which returns
  \<open>None\<close>.
  \<^verbatim>\<open>
  if not cap.isOpened(): return None
  cap.set(cv2.CAP_PROP_FRAME_WIDTH, 1280)
  cap.set(cv2.CAP_PROP_FRAME_HEIGHT, 720)
  time.sleep(0.5)
  for i in range(3): ...
  if frame is None: return None
  timestamp = datetime.datetime.now().strftime("%Y%m%d_%H%M%S")
  filename = f"capture_{timestamp}.jpg"
  filepath = os.path.join(self.app_dir, filename)
  success = cv2.imwrite(filepath, frame)
  if success: return filepath
  else:       return None
  \<close>
\<close>

definition capture_body :: "env \<Rightarrow> int \<Rightarrow> bool \<Rightarrow> string option \<times> event list" where
  "capture_body e camera_id opened =
     (if \<not> opened then (None, [])
      else
        emit [SetProp (Capt camera_id)]
         (case capture_set_width e of
            Raises \<Rightarrow> (None, [])
          | Returns _ \<Rightarrow>
        emit [SetProp (Capt camera_id)]
         (case capture_set_height e of
            Raises \<Rightarrow> (None, [])
          | Returns _ \<Rightarrow>
        emit [Sleep 500]
         (case read_frames e (Capt camera_id) [0, 1, 2] None of
            (Raises, tr) \<Rightarrow> (None, tr)
          | (Returns None, tr) \<Rightarrow> (None, tr)
          | (Returns (Some f), tr) \<Rightarrow>
        emit tr
         (let filepath = path_join (app_dir e) (capture_filename (now e)) in
        emit [ImWrite filepath f]
         (case imwrite e filepath f of
            Raises \<Rightarrow> (None, [])
          | Returns success \<Rightarrow> (if success then (Some filepath, []) else (None, []))))))))"

text \<open>
  \<^verbatim>\<open>
  cap = None
  try:
      cap = cv2.VideoCapture(camera_id)
      ...
  except Exception as e:
      return None
  finally:
      if cap is not None:
          cap.release()
  \<close>
  When the constructor raises, \<open>cap\<close> is still \<open>None\<close> and nothing is released. Otherwise
  the \<open>finally\<close> clause releases the object after everything else, opened or not.
\<close>

definition capture_image :: "env \<Rightarrow> int \<Rightarrow> string option \<times> event list" where
  "capture_image e camera_id =
     (case capture_open e camera_id of
        Raises \<Rightarrow> (None, [OpenRaised (Capt camera_id)])
      | Returns opened \<Rightarrow>
          (fst (capture_body e camera_id opened),
           [Open (Capt camera_id) opened] @ snd (capture_body e camera_id opened) @
           [Release (Capt camera_id)]))"

section \<open>\<open>run\<close> and \<open>main\<close>\<close>

text \<open>Python's truth value of \<open>image_path\<close>: \<open>None\<close> and the empty string are false.\<close>

definition truthy :: "string option \<Rightarrow> bool" where
  "truthy p = (case p of None \<Rightarrow> False | Some s \<Rightarrow> s \<noteq> [])"

text \<open>
  The calls of \<open>run\<close> that no \<open>try\<close> of their own guards: a message box shown through
  \<open>self.show_message\<close> (one flag for each call site), \<open>time.sleep(1)\<close>, and the
  \<open>cap.release()\<close> in the \<open>finally\<close> clause of \<open>capture_image\<close>. Each either returns or
  raises an exception, which then travels to the handlers of \<open>run\<close>.
\<close>

record unguarded =
  box_raises :: "dialog \<Rightarrow> bool"
  sleep_raises :: bool
  release_raises :: bool

text \<open>Nothing of it raises.\<close>

definition no_faults :: unguarded where
  "no_faults = \<lparr> box_raises = (\<lambda>d. False), sleep_raises = False, release_raises = False \<rparr>"

text \<open>
  \<open>and_then p q\<close>: the statements \<open>p\<close>, and after them the statements \<open>q\<close> unless \<open>p\<close>
  raised.
\<close>

definition and_then ::
  "unit outcome \<times> event list \<Rightarrow> unit outcome \<times> event list \<Rightarrow> unit outcome \<times> event list" where
  "and_then p q = (case fst p of Raises \<Rightarrow> p | Returns _ \<Rightarrow> emit (snd p) q)"

text \<open>
  \<open>self.show_message(...)\<close> at the call site \<open>d\<close>: the call is made, and it returns or
  raises. Only the answer of the confirmation is used by \<open>run\<close>; it is \<open>confirm_answer\<close>.
\<close>

definition show_message :: "unguarded \<Rightarrow> dialog \<Rightarrow> unit outcome \<times> event list" where
  "show_message u d = (if box_raises u d then Raises else Returns (), [Dialog d])"

text \<open>
  \<open>image_path = self.capture_image(camera_id)\<close> as \<open>run\<close> sees it: the calls of
  \<open>capture_image\<close> are made, and the call returns unless the \<open>release\<close> of its
  \<open>finally\<close> clause, which is called whenever the constructor returned an object,
  raises.
\<close>

definition call_capture_image :: "unguarded \<Rightarrow> env \<Rightarrow> int \<Rightarrow> unit outcome \<times> event list" where
  "call_capture_image u e camera_id =
     (if release_raises u \<and> capture_open e camera_id \<noteq> Raises then Raises else Returns (),
      CallCapture camera_id # snd (capture_image e camera_id))"

text \<open>
  The second half of the \<open>try\<close> block of \<open>run\<close>:
  \<^verbatim>\<open>
  if camera_id != -1:
      image_path = self.capture_image(camera_id)
      if image_path: (log)
      else: self.show_message("capture failed, locking anyway", ...)
  time.sleep(1)
  success = self.lock_workstation()
  if not success:
      self.show_message("lock failed", ...)
  \<close>
\<close>

definition capture_and_lock :: "unguarded \<Rightarrow> env \<Rightarrow> int \<Rightarrow> unit outcome \<times> event list" where
  "capture_and_lock u e camera_id =
     and_then
      (if camera_id \<noteq> - 1 then
         and_then (call_capture_image u e camera_id)
          (if truthy (fst (capture_image e camera_id)) then (Returns (), [])
           else show_message u NoticeCaptureFailed)
       else (Returns (), []))
     (and_then (if sleep_raises u then Raises else Returns (), [Sleep 1000])
     (and_then (Returns (), CallLock # snd (lock_workstation e))
      (if \<not> fst (lock_workstation e) then show_message u NoticeLockFailed
       else (Returns (), []))))"

text \<open>
  The \<open>try\<close> block of \<open>run\<close>:
  \<^verbatim>\<open>
  self.show_message("about to lock and capture", ...)
  camera_id = self.detect_camera()
  if camera_id == -1:
      result = self.show_message("no camera, lock anyway?", APP_NAME,
                                 self.MB_ICONWARNING | self.MB_OKCANCEL)
      if result != 1:
          return
  ...
  \<close>
  \<open>detect_camera\<close> and \<open>lock_workstation\<close> absorb the exceptions of their own calls and
  always return.
\<close>

definition app_run_try :: "unguarded \<Rightarrow> env \<Rightarrow> unit outcome \<times> event list" where
  "app_run_try u e =
     and_then (show_message u NoticeStart)
     (and_then (Returns (), CallDetect # snd (detect_camera e))
      (if fst (detect_camera e) = - 1 then
         and_then (show_message u ConfirmNoCamera)
          (if confirm_answer e \<noteq> 1 then (Returns (), [])
           else capture_and_lock u e (fst (detect_camera e)))
       else capture_and_lock u e (fst (detect_camera e))))"

text \<open>
  The method \<open>run\<close>, the \<open>try\<close> block with its handlers:
  \<^verbatim>\<open>
  except Exception as e:
      self.logger.error(...)
      self.show_message(f"error while running:\n{str(e)}", APP_NAME, self.MB_ICONERROR)
  finally:
      self.logger.info(...)
  \<close>
  When the \<open>try\<close> block raised, the handler shows the error message; nothing guards
  that call, so if it raises too the exception leaves \<open>run\<close>.
\<close>

definition app_run :: "unguarded \<Rightarrow> env \<Rightarrow> unit outcome \<times> event list" where
  "app_run u e =
     (case fst (app_run_try u e) of
        Returns _ \<Rightarrow> app_run_try u e
      | Raises \<Rightarrow> emit (snd (app_run_try u e)) (show_message u NoticeRunError))"

text \<open>The method \<open>run\<close> on a machine where none of the unguarded calls raises.\<close>

definition run :: "env \<Rightarrow> unit outcome \<times> event list" where
  "run e = app_run no_faults e"

text \<open>
  \<^verbatim>\<open>
  def main():
      try:
          app = LockAndCaptureApp()      # __init__ calls _load_windows_api, which
          app.run()                      # re-raises what ctypes.WinDLL raised
      except Exception as e:
          try:
              ctypes.windll.user32.MessageBoxW(None, ..., APP_NAME, 0x00000010)
          except:
              print(...)
          sys.exit(1)
  \<close>
  The one \<open>try\<close> covers the construction and \<open>app.run()\<close> alike. The result is the exit
  code of the process: 1 from \<open>sys.exit(1)\<close>, 0 when \<open>main\<close> returns.
\<close>

definition startup_failed :: "env \<Rightarrow> event list" where
  "startup_failed e =
     (case startup_dialog e of
        Returns _ \<Rightarrow> [Dialog NoticeStartupFailed]
      | Raises \<Rightarrow> [Dialog NoticeStartupFailed, Print])"

definition main :: "unguarded \<Rightarrow> env \<Rightarrow> int \<times> event list" where
  "main u e =
     (case windll_load e of
        Raises \<Rightarrow> (1, startup_failed e)
      | Returns _ \<Rightarrow>
          (case fst (app_run u e) of
             Returns _ \<Rightarrow> (0, snd (app_run u e))
           | Raises \<Rightarrow> (1, snd (app_run u e) @ startup_failed e)))"

section \<open>Open camera handles\<close>

text \<open>
  The objects that are open after a sequence of calls: a constructor that returned an
  opened object adds it, \<open>release\<close> removes it (and does nothing to an object that is not
  open).
\<close>

fun track :: "handle list \<Rightarrow> event \<Rightarrow> handle list" where
  "track s (Open h opened) = (if opened then h # s else s)"
| "track s (Release h) = remove1 h s"
| "track s _ = s"

definition open_handles :: "event list \<Rightarrow> handle list" where
  "open_handles tr = foldl track [] tr"

section \<open>Reading traces\<close>

text \<open>Predicates that pick calls of one kind out of a trace.\<close>

fun is_read :: "event \<Rightarrow> bool" where
  "is_read (Read h) = True"
| "is_read _ = False"

fun is_release :: "event \<Rightarrow> bool" where
  "is_release (Release h) = True"
| "is_release _ = False"

fun is_imwrite :: "event \<Rightarrow> bool" where
  "is_imwrite (ImWrite p f) = True"
| "is_imwrite _ = False"

text \<open>The calls of \<open>run\<close> to \<open>capture_image\<close>.\<close>

fun is_capture_call :: "event \<Rightarrow> bool" where
  "is_capture_call (CallCapture k) = True"
| "is_capture_call _ = False"

text \<open>The constructor calls that return an opened object.\<close>

fun is_opening :: "event \<Rightarrow> bool" where
  "is_opening (Open h opened) = opened"
| "is_opening _ = False"

text \<open>The indices the constructor was called with, in the order of the calls.\<close>

fun probed :: "event list \<Rightarrow> nat list" where
  "probed [] = []"
| "probed (Open (Probe i) opened # tr) = i # probed tr"
| "probed (OpenRaised (Probe i) # tr) = i # probed tr"
| "probed (ev # tr) = probed tr"

text \<open>The calls made on the camera objects of the probe loop.\<close>

fun of_probe :: "event \<Rightarrow> bool" where
  "of_probe (Open (Probe i) opened) = True"
| "of_probe (OpenRaised (Probe i)) = True"
| "of_probe (Read (Probe i)) = True"
| "of_probe (Release (Probe i)) = True"
| "of_probe _ = False"

text \<open>The calls that leave the open handles as they are.\<close>

fun neutral :: "event \<Rightarrow> bool" where
  "neutral (Open h opened) = (\<not> opened)"
| "neutral (Release h) = False"
| "neutral _ = True"

text \<open>
  Starting with the handles \<open>s\<close> open, the calls \<open>tr\<close> never have more than one handle
  open, and every constructor call that opens a device is made while none is open.
\<close>

fun exclusive :: "handle list \<Rightarrow> event list \<Rightarrow> bool" where
  "exclusive s [] = (length s \<le> 1)"
| "exclusive s (ev # tr) =
     (length s \<le> 1 \<and> (is_opening ev \<longrightarrow> s = []) \<and> exclusive (track s ev) tr)"

section \<open>Notions of the specification\<close>

text \<open>The frame of a read that succeeded (\<open>ret\<close> true), if it is one.\<close>

fun good_frame :: "(bool \<times> frame option) outcome \<Rightarrow> frame option" where
  "good_frame (Returns (ret, f)) = (if ret then f else None)"
| "good_frame Raises = None"

text \<open>
  In the specification's words: of the three reads of the Capturer, the last
  successfully read frame; \<open>None\<close> when no frame was ever successfully read.
\<close>

definition spec_last_good_frame :: "env \<Rightarrow> frame option" where
  "spec_last_good_frame e =
     (case good_frame (capture_read e 2) of
        Some f \<Rightarrow> Some f
      | None \<Rightarrow>
          (case good_frame (capture_read e 1) of
             Some f \<Rightarrow> Some f
           | None \<Rightarrow> good_frame (capture_read e 0)))"

text \<open>
  Index \<open>i\<close> works: its device opens and its read reports a frame. Index \<open>i\<close> raises:
  one of the calls the probe makes at \<open>i\<close> raises.
\<close>

definition works :: "env \<Rightarrow> nat \<Rightarrow> bool" where
  "works e i =
     (probe_open e i = Returns True \<and>
      (case probe_read e i of Returns (ret, _) \<Rightarrow> ret | Raises \<Rightarrow> False))"

definition probe_raises :: "env \<Rightarrow> nat \<Rightarrow> bool" where
  "probe_raises e i =
     (probe_open e i = Raises \<or> (probe_open e i = Returns True \<and> probe_read e i = Raises))"

section \<open>Scenarios\<close>

text \<open>
  A machine on which everything works: every camera index opens and reads, the capture
  delivers three frames, the clock shows 2024-03-05 09:08:07, the write and the lock
  succeed, the user presses OK. Other scenarios are record updates of this one.
\<close>

definition all_fine :: env where
  "all_fine =
     \<lparr> windll_load = Returns (),
       startup_dialog = Returns 1,
       app_dir = ''C:'' @ [CHR 0x5C] @ ''app'',
       probe_open = (\<lambda>i. Returns True),
       probe_read = (\<lambda>i. Returns (True, Some (Frame i))),
       confirm_answer = 1,
       capture_open = (\<lambda>k. Returns True),
       capture_set_width = Returns True,
       capture_set_height = Returns True,
       capture_read = (\<lambda>i. Returns (True, Some (Frame (10 + i)))),
       now = \<lparr> year = 2024, month = 3, day = 5, hour = 9, minute = 8, second = 7 \<rparr>,
       imwrite = (\<lambda>p f. Returns True),
       lock_call = Returns 1 \<rparr>"

text \<open>
  The third read of the capture fails, as OpenCV reports it (\<open>ret\<close> false, no frame),
  after two reads that succeeded.
\<close>

definition third_read_fails :: env where
  "third_read_fails =
     all_fine\<lparr>capture_read :=
       (\<lambda>i. if i = 2 then Returns (False, None) else Returns (True, Some (Frame (10 + i))))\<rparr>"

text \<open>The capture device opens, and the second read raises.\<close>

definition read_raises :: env where
  "read_raises =
     all_fine\<lparr>capture_read :=
       (\<lambda>i. if i = 1 then Raises else Returns (True, Some (Frame i)))\<rparr>"

text \<open>Everything works up to the write, which reports failure.\<close>

definition write_fails :: env where
  "write_fails = all_fine\<lparr>imwrite := (\<lambda>p f. Returns False)\<rparr>"

text \<open>Camera 0 opens and its read raises; every other camera works.\<close>

definition first_read_raises :: env where
  "first_read_raises =
     all_fine\<lparr>probe_read := (\<lambda>i. if i = 0 then Raises else Returns (True, Some (Frame i)))\<rparr>"

text \<open>
  Camera 0 does not open, camera 1 opens and fails to read, cameras 2, 3 and 4 work.
\<close>

definition first_two_fail :: env where
  "first_two_fail =
     all_fine\<lparr>probe_open := (\<lambda>i. Returns (i \<noteq> 0)),
              probe_read := (\<lambda>i. Returns (2 \<le> i, if 2 \<le> i then Some (Frame i) else None))\<rparr>"

text \<open>No camera opens; the user presses OK in the confirmation.\<close>

definition no_camera :: env where
  "no_camera = all_fine\<lparr>probe_open := (\<lambda>i. Returns False)\<rparr>"

text \<open>No camera opens; the user presses Cancel (\<open>IDCANCEL\<close> is 2).\<close>

definition no_camera_cancel :: env where
  "no_camera_cancel = no_camera\<lparr>confirm_answer := 2\<rparr>"

text \<open>No camera opens; the confirmation returns \<open>r\<close>.\<close>

definition no_camera_answer :: "int \<Rightarrow> env" where
  "no_camera_answer r = no_camera\<lparr>confirm_answer := r\<rparr>"


text \<open>\<open>User32.dll\<close> cannot be loaded, and the fallback message box raises as well.\<close>

definition no_user32 :: env where
  "no_user32 = all_fine\<lparr>windll_load := Raises, startup_dialog := Raises\<rparr>"

text \<open>Every message box of \<open>run\<close> raises.\<close>

definition broken_boxes :: unguarded where
  "broken_boxes = no_faults\<lparr>box_raises := (\<lambda>d. True)\<rparr>"

text \<open>
  The initialisation succeeds, and later no message box can be shown: those of \<open>run\<close>
  raise (\<open>broken_boxes\<close>), and so does the one of \<open>main\<close>.
\<close>

definition no_message_boxes :: env where
  "no_message_boxes = all_fine\<lparr>startup_dialog := Raises\<rparr>"

text \<open>Only the opening notice raises.\<close>

definition first_box_raises :: unguarded where
  "first_box_raises = no_faults\<lparr>box_raises := (\<lambda>d. d = NoticeStart)\<rparr>"

text \<open>Camera 0 does not open, camera 1 opens and its read raises.\<close>

definition second_read_raises :: env where
  "second_read_raises =
     all_fine\<lparr>probe_open := (\<lambda>i. Returns (i \<noteq> 0)), probe_read := (\<lambda>i. Raises)\<rparr>"

section \<open>Basic facts\<close>

lemma fst_emit [simp]: "fst (emit evs p) = fst p"
  by (simp add: emit_def)

lemma snd_emit [simp]: "snd (emit evs p) = evs @ snd p"
  by (simp add: emit_def)

section \<open>Properties of \<open>lock_workstation\<close>\<close>

text \<open>
  C8. The Session Locker makes exactly one attempt per call: the only call it makes is a
  single \<open>LockWorkStation\<close>. It returns true exactly when that call returned a non-zero
  value; when the call raises, the function returns false (the exception is not passed
  on: the result is a boolean in every case).
\<close>

theorem lock_workstation_single_attempt:
  "snd (lock_workstation e) = [LockWorkStation] \<and>
   (fst (lock_workstation e) \<longleftrightarrow> (\<exists>r. lock_call e = Returns r \<and> r \<noteq> 0)) \<and>
   (lock_call e = Raises \<longrightarrow> fst (lock_workstation e) = False)"
  by (simp add: lock_workstation_def split: outcome.splits)

theorem lock_workstation_single_attempt_witness:
  "lock_call (all_fine\<lparr>lock_call := Raises\<rparr>) = Raises \<and>
   fst (lock_workstation (all_fine\<lparr>lock_call := Raises\<rparr>)) = False \<and>
   snd (lock_workstation (all_fine\<lparr>lock_call := Raises\<rparr>)) = [LockWorkStation]"
  using lock_workstation_single_attempt [of "all_fine\<lparr>lock_call := Raises\<rparr>"]
  by simp

section \<open>Properties of \<open>capture_image\<close>\<close>

lemma read_frames_three:
  assumes "capture_read e 0 = Returns (r0, f0)"
    and "capture_read e 1 = Returns (r1, f1)"
    and "capture_read e 2 = Returns (r2, f2)"
  shows "read_frames e h [0, 1, 2] fr = (Returns f2, [Read h, Read h, Read h])"
  using assms by (simp add: emit_def)

text \<open>
  C1, as the code has it. When the device opens and no call raises, the Capturer reads
  exactly three times, whatever the \<open>ret\<close> flags \<open>r0\<close>, \<open>r1\<close>, \<open>r2\<close> are (a failed read
  does not end the loop), and it keeps the frame of the third read, not the last
  successful one: if the third read delivered no frame the Capturer reports FAILURE and
  writes nothing, whatever the first two reads delivered; if it delivered a frame, that
  frame is the one handed to \<open>imwrite\<close>, and FAILURE is then reported only when the write
  does not succeed.
\<close>

theorem capture_image_keeps_third_frame:
  assumes "capture_open e k = Returns True"
    and "capture_set_width e \<noteq> Raises"
    and "capture_set_height e \<noteq> Raises"
    and "capture_read e 0 = Returns (r0, f0)"
    and "capture_read e 1 = Returns (r1, f1)"
    and "capture_read e 2 = Returns (r2, f2)"
  shows "filter (\<lambda>ev. ev = Read (Capt k)) (snd (capture_image e k)) =
           [Read (Capt k), Read (Capt k), Read (Capt k)] \<and>
         (f2 = None \<longrightarrow>
            fst (capture_image e k) = None \<and> filter is_imwrite (snd (capture_image e k)) = []) \<and>
         (\<forall>f. f2 = Some f \<longrightarrow>
            filter is_imwrite (snd (capture_image e k)) =
              [ImWrite (path_join (app_dir e) (capture_filename (now e))) f] \<and>
            (fst (capture_image e k) = None \<longleftrightarrow>
               imwrite e (path_join (app_dir e) (capture_filename (now e))) f \<noteq> Returns True))"
proof -
  have rd: "read_frames e (Capt k) [0, 1, 2] None =
      (Returns f2, [Read (Capt k), Read (Capt k), Read (Capt k)])"
    using assms(4-6) by (rule read_frames_three)
  obtain w where w: "capture_set_width e = Returns w"
    using assms(2) by (cases "capture_set_width e") auto
  obtain v where v: "capture_set_height e = Returns v"
    using assms(3) by (cases "capture_set_height e") auto
  show ?thesis
  proof (cases f2)
    case None
    then show ?thesis
      using assms(1) rd w v by (simp add: capture_image_def capture_body_def)
  next
    case (Some f)
    then show ?thesis
      using assms(1) rd w v
      by (cases "imwrite e (path_join (app_dir e) (capture_filename (now e))) f")
         (simp_all add: capture_image_def capture_body_def Let_def)
  qed
qed

text \<open>
  With two good reads followed by a failed one, the three reads are made, the third
  delivers nothing, and the Capturer reports FAILURE.
\<close>

theorem capture_image_keeps_third_frame_witness:
  "capture_open third_read_fails 0 = Returns True \<and>
   capture_read third_read_fails 1 = Returns (True, Some (Frame 11)) \<and>
   capture_read third_read_fails 2 = Returns (False, None) \<and>
   fst (capture_image third_read_fails 0) = None \<and>
   filter (\<lambda>ev. ev = Read (Capt 0)) (snd (capture_image third_read_fails 0)) =
     [Read (Capt 0), Read (Capt 0), Read (Capt 0)]"
  using capture_image_keeps_third_frame
    [of third_read_fails 0 True "Some (Frame 10)" True "Some (Frame 11)" False None]
  by (simp add: third_read_fails_def all_fine_def)

text \<open>
  C1, as the specification states it, fails: in the scenario \<open>third_read_fails\<close> the last
  successfully read frame exists (it is the second one), and yet the Capturer reports
  FAILURE and writes no file.
\<close>

theorem capture_image_stale_frame_counterexample:
  "spec_last_good_frame third_read_fails = Some (Frame 11) \<and>
   fst (capture_image third_read_fails 0) = None \<and>
   filter is_imwrite (snd (capture_image third_read_fails 0)) = []"
  by (simp add: spec_last_good_frame_def third_read_fails_def all_fine_def
      capture_image_def capture_body_def emit_def)

lemma track_neutral: "neutral ev \<Longrightarrow> track s ev = s"
  by (cases ev) auto

lemma foldl_track_neutral: "\<forall>ev\<in>set tr. neutral ev \<Longrightarrow> foldl track s tr = s"
  by (induction tr arbitrary: s) (simp_all add: track_neutral)

lemma filter_none: "\<forall>x\<in>set xs. \<not> P x \<Longrightarrow> filter P xs = []"
  by (induction xs) auto

lemma read_frames_events: "set (snd (read_frames e h is fr)) \<subseteq> {Read h}"
  by (induction "is" arbitrary: fr) (auto split: outcome.splits)

lemma capture_body_events:
  assumes "ev \<in> set (snd (capture_body e k b))"
  shows "ev = SetProp (Capt k) \<or> ev = Sleep 500 \<or> ev = Read (Capt k) \<or> is_imwrite ev"
proof -
  obtain r tr where rt: "read_frames e (Capt k) [0, 1, 2] None = (r, tr)"
    by (cases "read_frames e (Capt k) [0, 1, 2] None")
  have rd: "\<And>x. x \<in> set tr \<Longrightarrow> x = Read (Capt k)"
    using read_frames_events [of e "Capt k" "[0, 1, 2]" None] rt by auto
  show ?thesis
    using assms rd unfolding capture_body_def Let_def rt
    by (auto split: if_splits outcome.splits option.splits)
qed

lemma capture_body_neutral:
  "\<forall>ev\<in>set (snd (capture_body e k b)). neutral ev \<and> \<not> is_release ev"
proof
  fix ev assume "ev \<in> set (snd (capture_body e k b))"
  from capture_body_events [OF this] show "neutral ev \<and> \<not> is_release ev"
    by (cases ev) auto
qed

text \<open>
  C2. Whenever the constructor handed \<open>capture_image\<close> a camera object, on every path
  through the function (the device did not open, reads failed or raised, the write
  failed or raised, success) the calls of \<open>capture_image\<close> contain exactly one
  \<open>release\<close>, it is the release of that object and it is the last call made, so that
  no handle is open when the function returns. When the constructor itself raised, no
  object exists and the constructor call is the only call.
\<close>

theorem capture_image_releases_once:
  "(capture_open e k \<noteq> Raises \<longrightarrow>
      filter is_release (snd (capture_image e k)) = [Release (Capt k)] \<and>
      last (snd (capture_image e k)) = Release (Capt k) \<and>
      open_handles (snd (capture_image e k)) = []) \<and>
   (capture_open e k = Raises \<longrightarrow> snd (capture_image e k) = [OpenRaised (Capt k)])"
proof (cases "capture_open e k")
  case Raises
  then show ?thesis by (simp add: capture_image_def)
next
  case (Returns opened)
  let ?body = "snd (capture_body e k opened)"
  have tr: "snd (capture_image e k) = Open (Capt k) opened # ?body @ [Release (Capt k)]"
    using Returns by (simp add: capture_image_def)
  have n: "\<forall>ev\<in>set ?body. neutral ev" and r: "\<forall>ev\<in>set ?body. \<not> is_release ev"
    using capture_body_neutral [of e k opened] by blast+
  have "filter is_release (snd (capture_image e k)) = [Release (Capt k)]"
    using r by (simp add: tr filter_none)
  moreover have "last (snd (capture_image e k)) = Release (Capt k)"
    by (simp add: tr)
  moreover have "open_handles (snd (capture_image e k)) = []"
    using n by (simp add: tr open_handles_def foldl_track_neutral)
  ultimately show ?thesis using Returns by simp
qed

text \<open>A read that raises between the open and the final read: one release, at the end.\<close>

theorem capture_image_releases_once_witness:
  "capture_open read_raises 0 \<noteq> Raises \<and>
   capture_read read_raises 1 = Raises \<and>
   fst (capture_image read_raises 0) = None \<and>
   filter is_release (snd (capture_image read_raises 0)) = [Release (Capt 0)] \<and>
   last (snd (capture_image read_raises 0)) = Release (Capt 0) \<and>
   open_handles (snd (capture_image read_raises 0)) = []"
  using capture_image_releases_once [of read_raises 0]
  by (simp add: read_raises_def all_fine_def capture_image_def capture_body_def emit_def)

lemma capture_body_some:
  assumes "fst (capture_body e k b) = Some p"
  shows "p = path_join (app_dir e) (capture_filename (now e)) \<and>
         (\<exists>f. ImWrite p f \<in> set (snd (capture_body e k b)) \<and> imwrite e p f = Returns True)"
proof -
  obtain r tr where rt: "read_frames e (Capt k) [0, 1, 2] None = (r, tr)"
    by (cases "read_frames e (Capt k) [0, 1, 2] None")
  show ?thesis
    using assms unfolding capture_body_def Let_def rt
    by (auto split: if_splits outcome.splits option.splits)
qed

lemma capture_filename_example:
  "capture_filename \<lparr>year = 2024, month = 3, day = 5, hour = 9, minute = 8, second = 7\<rparr> =
     ''capture_20240305_090807.jpg''"
  by (simp add: capture_filename_def strftime_def pad2_def pad4_def digit_char_def)

text \<open>
  C6. Whenever the Capturer returns a path, that path is the program's directory
  \<open>app_dir\<close> (an absolute path, the \<open>dirname\<close> of \<open>abspath\<close>) followed by the file name
  \<open>capture_<timestamp>.jpg\<close>, with at most one separator between them, and it is the
  path of a file that \<open>imwrite\<close> was called on and reported written: a write that
  fails or raises never yields a path. At the clock reading 2024-03-05 09:08:07 the
  file name is \<open>capture_20240305_090807.jpg\<close>.
\<close>

theorem capture_image_path_only_after_write:
  "(\<forall>p. fst (capture_image e k) = Some p \<longrightarrow>
      (p = app_dir e @ capture_filename (now e) \<or>
       p = app_dir e @ [path_sep] @ capture_filename (now e)) \<and>
      (\<exists>f. ImWrite p f \<in> set (snd (capture_image e k)) \<and> imwrite e p f = Returns True)) \<and>
   (now e = \<lparr>year = 2024, month = 3, day = 5, hour = 9, minute = 8, second = 7\<rparr> \<longrightarrow>
      capture_filename (now e) = ''capture_20240305_090807.jpg'')"
proof -
  have "p = path_join (app_dir e) (capture_filename (now e)) \<and>
        (\<exists>f. ImWrite p f \<in> set (snd (capture_image e k)) \<and> imwrite e p f = Returns True)"
    if "fst (capture_image e k) = Some p" for p
  proof (cases "capture_open e k")
    case Raises
    with that show ?thesis by (simp add: capture_image_def)
  next
    case (Returns opened)
    with that have "fst (capture_body e k opened) = Some p"
      by (simp add: capture_image_def)
    from capture_body_some [OF this] show ?thesis
      using Returns by (auto simp: capture_image_def)
  qed
  moreover have "path_join d f = d @ f \<or> path_join d f = d @ [path_sep] @ f" for d f
    by (simp add: path_join_def)
  ultimately show ?thesis
    using capture_filename_example by metis
qed

text \<open>
  On the machine where everything works the path returned is
  \<open>C:\app\capture_20240305_090807.jpg\<close> and it was written; when the write reports
  failure, no path is returned.
\<close>

theorem capture_image_path_only_after_write_witness:
  "fst (capture_image all_fine 0) =
     Some (''C:'' @ [path_sep] @ ''app'' @ [path_sep] @ ''capture_20240305_090807.jpg'') \<and>
   ImWrite (''C:'' @ [path_sep] @ ''app'' @ [path_sep] @ ''capture_20240305_090807.jpg'')
     (Frame 12) \<in> set (snd (capture_image all_fine 0)) \<and>
   fst (capture_image write_fails 0) = None"
  using capture_image_path_only_after_write [of all_fine 0]
  by (simp add: write_fails_def all_fine_def capture_image_def capture_body_def emit_def
      path_join_def path_sep_def capture_filename_def strftime_def pad2_def pad4_def
      digit_char_def Let_def)

section \<open>Properties of \<open>detect_camera\<close>\<close>

lemma probed_append: "probed (xs @ ys) = probed xs @ probed ys"
  by (induction xs rule: probed.induct) auto

lemma probe_skip:
  assumes "\<not> works e i" and "\<not> probe_raises e i"
  shows "fst (probe e (i # rest)) = fst (probe e rest) \<and>
         probed (snd (probe e (i # rest))) = i # probed (snd (probe e rest)) \<and>
         foldl track s (snd (probe e (i # rest))) = foldl track s (snd (probe e rest)) \<and>
         length (filter is_read (snd (probe e (i # rest)))) \<le> Suc (length (filter is_read (snd (probe e rest)))) \<and>
         length (filter is_release (snd (probe e (i # rest)))) \<le> Suc (length (filter is_release (snd (probe e rest))))"
  using assms
  by (auto simp: works_def probe_raises_def split: outcome.splits)

lemma probe_hit:
  assumes "works e i"
  shows "probe e (i # rest) = (int i, [Open (Probe i) True, Read (Probe i), Release (Probe i)])"
  using assms by (auto simp: works_def split: outcome.splits)

lemma probe_raise:
  assumes "probe_raises e i"
  shows "fst (probe e (i # rest)) = - 1 \<and> probed (snd (probe e (i # rest))) = [i]"
  using assms by (auto simp: probe_raises_def split: outcome.splits)

lemma probe_first_works:
  assumes "\<forall>j\<in>set xs. \<not> works e j \<and> \<not> probe_raises e j" and "works e k"
  shows "fst (probe e (xs @ k # ys)) = int k \<and>
         probed (snd (probe e (xs @ k # ys))) = xs @ [k] \<and>
         foldl track s (snd (probe e (xs @ k # ys))) = s"
  using assms
proof (induction xs)
  case Nil
  then show ?case by (simp add: probe_hit del: probe.simps)
next
  case (Cons x xs)
  then show ?case using probe_skip [of e x "xs @ k # ys" s] by (simp del: probe.simps)
qed

lemma probe_first_raises:
  assumes "\<forall>j\<in>set xs. \<not> works e j \<and> \<not> probe_raises e j" and "probe_raises e k"
  shows "fst (probe e (xs @ k # ys)) = - 1 \<and>
         probed (snd (probe e (xs @ k # ys))) = xs @ [k]"
  using assms
proof (induction xs)
  case Nil
  then show ?case using probe_raise [of e k ys] by (simp del: probe.simps)
next
  case (Cons x xs)
  then show ?case using probe_skip [of e x "xs @ k # ys"] by (simp del: probe.simps)
qed

lemma probe_none_works:
  assumes "\<forall>j\<in>set xs. \<not> works e j \<and> \<not> probe_raises e j"
  shows "fst (probe e xs) = - 1 \<and> probed (snd (probe e xs)) = xs \<and>
         foldl track s (snd (probe e xs)) = s"
  using assms
proof (induction xs)
  case Nil
  then show ?case by simp
next
  case (Cons x xs)
  then show ?case using probe_skip [of e x xs s] by (simp del: probe.simps)
qed

lemma probe_bounded:
  "prefix (probed (snd (probe e xs))) xs \<and>
   length (filter is_read (snd (probe e xs))) \<le> length xs \<and>
   length (filter is_release (snd (probe e xs))) \<le> length xs"
proof (induction xs)
  case Nil
  then show ?case by simp
next
  case (Cons x xs)
  consider "works e x" | "probe_raises e x" | "\<not> works e x" "\<not> probe_raises e x"
    by blast
  then show ?case
  proof cases
    case 1
    then show ?thesis by (simp add: probe_hit del: probe.simps)
  next
    case 2
    then show ?thesis by (auto simp: probe_raises_def split: outcome.splits)
  next
    case 3
    from probe_skip [OF this, of xs "[]"] Cons show ?thesis
      by (auto simp del: probe.simps)
  qed
qed

lemma range5: "[0, 1, 2, 3, 4] = [0..<5]"
  by (simp add: upt_rec)

lemma upt_split: "k < n \<Longrightarrow> [0..<n] = [0..<k] @ k # [Suc k..<n]"
  by (metis less_imp_add_positive upt_add_eq_append upt_conv_Cons zero_le add_0)

text \<open>
  C3, as the code has it. In every environment the Camera Locator calls the constructor
  for the indices 0, 1, 2, ... in ascending order, for at most the five indices 0 to 4,
  and reads and releases at most five times. It stops at the first index \<open>k\<close> that works
  or raises. If \<open>k\<close> works it returns \<open>k\<close> (never a later index, whatever the later
  devices would do), having probed exactly 0 to \<open>k\<close>, and no handle is open. If a call
  at \<open>k\<close> raises it returns NONE, without probing further. If none of the five indices
  works or raises it returns NONE after probing all five, and no handle is open.
\<close>

theorem detect_camera_first_decisive:
  "prefix (probed (snd (detect_camera e))) [0, 1, 2, 3, 4] \<and>
   length (filter is_read (snd (detect_camera e))) \<le> 5 \<and>
   length (filter is_release (snd (detect_camera e))) \<le> 5 \<and>
   (\<forall>k<5. (\<forall>j<k. \<not> works e j \<and> \<not> probe_raises e j) \<longrightarrow>
      (works e k \<longrightarrow>
         fst (detect_camera e) = int k \<and> probed (snd (detect_camera e)) = [0..<Suc k] \<and>
         open_handles (snd (detect_camera e)) = []) \<and>
      (probe_raises e k \<longrightarrow>
         fst (detect_camera e) = - 1 \<and> probed (snd (detect_camera e)) = [0..<Suc k])) \<and>
   ((\<forall>j<5. \<not> works e j \<and> \<not> probe_raises e j) \<longrightarrow>
      fst (detect_camera e) = - 1 \<and> probed (snd (detect_camera e)) = [0..<5] \<and>
      open_handles (snd (detect_camera e)) = [])"
proof -
  have d: "detect_camera e = probe e [0..<5]"
    by (simp only: detect_camera_def range5)
  have bounded: "prefix (probed (snd (detect_camera e))) [0, 1, 2, 3, 4] \<and>
     length (filter is_read (snd (detect_camera e))) \<le> 5 \<and>
     length (filter is_release (snd (detect_camera e))) \<le> 5"
    using probe_bounded [of e "[0, 1, 2, 3, 4]"] by (simp add: detect_camera_def)
  have first: "(works e k \<longrightarrow>
         fst (detect_camera e) = int k \<and> probed (snd (detect_camera e)) = [0..<Suc k] \<and>
         open_handles (snd (detect_camera e)) = []) \<and>
      (probe_raises e k \<longrightarrow>
         fst (detect_camera e) = - 1 \<and> probed (snd (detect_camera e)) = [0..<Suc k])"
    if k: "k < 5" and before: "\<forall>j<k. \<not> works e j \<and> \<not> probe_raises e j" for k
  proof -
    have split: "[0..<5] = [0..<k] @ k # [Suc k..<5]"
      using k by (rule upt_split)
    have pre: "\<forall>j\<in>set [0..<k]. \<not> works e j \<and> \<not> probe_raises e j"
      using before by simp
    show ?thesis
      using probe_first_works [OF pre, of k "[Suc k..<5]" "[]"]
        probe_first_raises [OF pre, of k "[Suc k..<5]"]
      unfolding d split [symmetric] open_handles_def by simp
  qed
  have none: "fst (detect_camera e) = - 1 \<and> probed (snd (detect_camera e)) = [0..<5] \<and>
      open_handles (snd (detect_camera e)) = []"
    if "\<forall>j<5. \<not> works e j \<and> \<not> probe_raises e j"
  proof -
    have "\<forall>j\<in>set [0..<5]. \<not> works e j \<and> \<not> probe_raises e j"
      using that by simp
    from probe_none_works [OF this, of "[]"] show ?thesis
      unfolding d open_handles_def by simp
  qed
  show ?thesis
    using bounded first none by blast
qed

text \<open>
  C3, as the specification states it for every environment, fails where a read raises:
  camera 0 opens and its read raises, camera 1 is the first index that opens and yields
  a frame, and yet the Locator returns NONE, and the handle of camera 0 is still open.
\<close>

theorem detect_camera_raise_counterexample:
  "works first_read_raises 1 \<and> \<not> works first_read_raises 0 \<and>
   fst (detect_camera first_read_raises) = - 1 \<and>
   open_handles (snd (detect_camera first_read_raises)) = [Probe 0]"
  by (simp add: works_def first_read_raises_def all_fine_def detect_camera_def open_handles_def)

text \<open>Cameras 2 and 3 both work: the Locator returns 2, having probed 0, 1 and 2.\<close>

theorem detect_camera_first_decisive_witness:
  "\<not> works first_two_fail 0 \<and> \<not> works first_two_fail 1 \<and> works first_two_fail 2 \<and>
   works first_two_fail 3 \<and>
   fst (detect_camera first_two_fail) = 2 \<and>
   probed (snd (detect_camera first_two_fail)) = [0, 1, 2] \<and>
   open_handles (snd (detect_camera first_two_fail)) = []"
  using detect_camera_first_decisive [of first_two_fail]
  by (simp add: works_def first_two_fail_def all_fine_def detect_camera_def open_handles_def emit_def)

section \<open>Properties of \<open>run\<close>\<close>

lemma probe_events: "\<forall>ev\<in>set (snd (probe e xs)). of_probe ev"
  by (induction xs) (auto split: outcome.splits)

lemma detect_camera_events: "ev \<in> set (snd (detect_camera e)) \<Longrightarrow> of_probe ev"
  using probe_events [of e "[0, 1, 2, 3, 4]"] by (simp add: detect_camera_def)

lemma lock_workstation_events: "snd (lock_workstation e) = [LockWorkStation]"
  by (simp add: lock_workstation_def split: outcome.splits)

lemma run_returns: "app_run_try no_faults e = (Returns (), snd (run e))"
  by (simp add: run_def app_run_def app_run_try_def capture_and_lock_def call_capture_image_def
      show_message_def and_then_def no_faults_def emit_def)

lemma app_run_no_faults: "app_run no_faults e = (Returns (), snd (run e))"
  by (simp add: app_run_def run_returns)

lemma run_no_camera:
  assumes "fst (detect_camera e) = - 1"
  shows "snd (run e) =
           Dialog NoticeStart # CallDetect # snd (detect_camera e) @ [Dialog ConfirmNoCamera] @
           (if confirm_answer e \<noteq> 1 then []
            else [Sleep 1000, CallLock, LockWorkStation] @
                 (if fst (lock_workstation e) then [] else [Dialog NoticeLockFailed]))"
  using assms
  by (simp add: run_def app_run_def app_run_try_def capture_and_lock_def show_message_def
      and_then_def no_faults_def lock_workstation_events)

lemma run_camera:
  assumes "fst (detect_camera e) \<noteq> - 1"
  shows "snd (run e) =
           Dialog NoticeStart # CallDetect # snd (detect_camera e) @
           CallCapture (fst (detect_camera e)) # snd (capture_image e (fst (detect_camera e))) @
           (if truthy (fst (capture_image e (fst (detect_camera e)))) then []
            else [Dialog NoticeCaptureFailed]) @
           [Sleep 1000, CallLock, LockWorkStation] @
           (if fst (lock_workstation e) then [] else [Dialog NoticeLockFailed])"
  using assms
  by (simp add: run_def app_run_def app_run_try_def capture_and_lock_def call_capture_image_def
      show_message_def and_then_def no_faults_def lock_workstation_events)

text \<open>
  C4. When the Camera Locator returns NONE and the user answers the confirmation with
  Cancel, the run consists of the opening notice, the probe and the confirmation, and
  nothing after it: \<open>capture_image\<close> is not called, \<open>lock_workstation\<close> is not called
  and \<open>LockWorkStation\<close> is never invoked.
\<close>

theorem run_cancel_stops:
  assumes "fst (detect_camera e) = - 1" and "confirm_answer e = 2"
  shows "snd (run e) =
           Dialog NoticeStart # CallDetect # snd (detect_camera e) @ [Dialog ConfirmNoCamera] \<and>
         filter is_capture_call (snd (run e)) = [] \<and>
         CallLock \<notin> set (snd (run e)) \<and>
         LockWorkStation \<notin> set (snd (run e))"
proof -
  have tr: "snd (run e) =
      Dialog NoticeStart # CallDetect # snd (detect_camera e) @ [Dialog ConfirmNoCamera]"
    using run_no_camera [OF assms(1)] assms(2) by simp
  have "\<not> is_capture_call ev \<and> ev \<noteq> CallLock \<and> ev \<noteq> LockWorkStation"
    if "ev \<in> set (snd (detect_camera e))" for ev
    using detect_camera_events [OF that] by (cases ev) auto
  then show ?thesis
    unfolding tr by (auto simp: filter_empty_conv)
qed

text \<open>All five probes fail to open and the user cancels: the run ends with the confirmation.\<close>

theorem run_cancel_stops_witness:
  "fst (detect_camera no_camera_cancel) = - 1 \<and> confirm_answer no_camera_cancel = 2 \<and>
   snd (run no_camera_cancel) =
     [Dialog NoticeStart, CallDetect, Open (Probe 0) False, Open (Probe 1) False,
      Open (Probe 2) False, Open (Probe 3) False, Open (Probe 4) False,
      Dialog ConfirmNoCamera]"
  using run_cancel_stops [of no_camera_cancel]
  by (simp add: no_camera_cancel_def no_camera_def all_fine_def detect_camera_def emit_def)



text \<open>
  C10. When no camera was found, then for every integer the confirmation returns: if it
  is 1 (OK) the run proceeds to the pause and the lock; if it is anything else (2 for
  Cancel, 0 for a message box that failed, any other value) the run stops right after
  the confirmation. So the Session Locker is called, and \<open>LockWorkStation\<close> invoked, if
  and only if the answer is 1.
\<close>

theorem run_proceeds_only_on_ok:
  assumes "fst (detect_camera e) = - 1"
  shows "(confirm_answer e = 1 \<longrightarrow>
            snd (run e) =
              Dialog NoticeStart # CallDetect # snd (detect_camera e) @
              [Dialog ConfirmNoCamera, Sleep 1000, CallLock, LockWorkStation] @
              (if fst (lock_workstation e) then [] else [Dialog NoticeLockFailed])) \<and>
         (confirm_answer e \<noteq> 1 \<longrightarrow>
            snd (run e) =
              Dialog NoticeStart # CallDetect # snd (detect_camera e) @ [Dialog ConfirmNoCamera]) \<and>
         (CallLock \<in> set (snd (run e)) \<longleftrightarrow> confirm_answer e = 1) \<and>
         (LockWorkStation \<in> set (snd (run e)) \<longleftrightarrow> confirm_answer e = 1)"
proof -
  have "ev \<noteq> CallLock \<and> ev \<noteq> LockWorkStation" if "ev \<in> set (snd (detect_camera e))" for ev
    using detect_camera_events [OF that] by (cases ev) auto
  then show ?thesis
    using run_no_camera [OF assms] by auto
qed

text \<open>The answers 0 and 2 stop the run, the answer 1 leads to the lock.\<close>

theorem run_proceeds_only_on_ok_witness:
  "fst (detect_camera (no_camera_answer 0)) = - 1 \<and>
   LockWorkStation \<notin> set (snd (run (no_camera_answer 0))) \<and>
   fst (detect_camera (no_camera_answer 1)) = - 1 \<and>
   LockWorkStation \<in> set (snd (run (no_camera_answer 1))) \<and>
   fst (detect_camera (no_camera_answer 2)) = - 1 \<and>
   LockWorkStation \<notin> set (snd (run (no_camera_answer 2)))"
  using run_proceeds_only_on_ok [of "no_camera_answer 0"]
    run_proceeds_only_on_ok [of "no_camera_answer 1"]
    run_proceeds_only_on_ok [of "no_camera_answer 2"]
  by (simp add: no_camera_answer_def no_camera_def all_fine_def detect_camera_def emit_def)

section \<open>Properties of \<open>main\<close>\<close>

lemma app_run_try_raises:
  "fst (app_run_try u e) = Raises \<longleftrightarrow>
     box_raises u NoticeStart \<or>
     (fst (detect_camera e) = - 1 \<and>
        (box_raises u ConfirmNoCamera \<or>
         (confirm_answer e = 1 \<and>
            (sleep_raises u \<or>
             (\<not> fst (lock_workstation e) \<and> box_raises u NoticeLockFailed))))) \<or>
     (fst (detect_camera e) \<noteq> - 1 \<and>
        ((release_raises u \<and> capture_open e (fst (detect_camera e)) \<noteq> Raises) \<or>
         (\<not> truthy (fst (capture_image e (fst (detect_camera e)))) \<and>
            box_raises u NoticeCaptureFailed) \<or>
         sleep_raises u \<or>
         (\<not> fst (lock_workstation e) \<and> box_raises u NoticeLockFailed)))"
  by (auto simp: app_run_try_def capture_and_lock_def call_capture_image_def show_message_def
      and_then_def)

text \<open>
  C7, as the code has it. The exit code is 1 exactly when the initialisation fails
  (then the main sequence never starts: the only calls are the start-up message and its
  fallback) or when the \<open>try\<close> block of \<open>run\<close> raises and the error message of its
  handler raises as well: that exception leaves \<open>run\<close>, is caught by the \<open>try\<close> of
  \<open>main\<close>, and the process ends with 1 although the initialisation succeeded. In every
  other case the exit code is 0: when the main sequence completes without an exception
  (with no unguarded call raising it does so on every path, and its calls are those of
  \<open>run\<close>), and when an exception of the main sequence is caught by the handler of \<open>run\<close>
  and the handler's error message returns. The \<open>try\<close> block raises exactly when an
  unguarded call on the path taken raises: a message box, the pause before the lock,
  or the \<open>release\<close> of the capture device. No exception leaves \<open>main\<close>.
\<close>

theorem main_exit_code:
  "(fst (main u e) = 1 \<longleftrightarrow>
      windll_load e = Raises \<or>
      (fst (app_run_try u e) = Raises \<and> box_raises u NoticeRunError)) \<and>
   (fst (main u e) = 0 \<longleftrightarrow>
      windll_load e \<noteq> Raises \<and>
      (fst (app_run_try u e) \<noteq> Raises \<or> \<not> box_raises u NoticeRunError)) \<and>
   (windll_load e = Raises \<longrightarrow> snd (main u e) = startup_failed e) \<and>
   (windll_load e \<noteq> Raises \<and> fst (app_run_try u e) \<noteq> Raises \<longrightarrow>
      main u e = (0, snd (app_run_try u e))) \<and>
   (windll_load e \<noteq> Raises \<and> fst (app_run_try u e) = Raises \<and>
    \<not> box_raises u NoticeRunError \<longrightarrow>
      main u e = (0, snd (app_run_try u e) @ [Dialog NoticeRunError])) \<and>
   (windll_load e \<noteq> Raises \<and> fst (app_run_try u e) = Raises \<and>
    box_raises u NoticeRunError \<longrightarrow>
      main u e = (1, snd (app_run_try u e) @ [Dialog NoticeRunError] @ startup_failed e)) \<and>
   (fst (app_run_try u e) = Raises \<longleftrightarrow>
      box_raises u NoticeStart \<or>
      (fst (detect_camera e) = - 1 \<and>
         (box_raises u ConfirmNoCamera \<or>
          (confirm_answer e = 1 \<and>
             (sleep_raises u \<or>
              (\<not> fst (lock_workstation e) \<and> box_raises u NoticeLockFailed))))) \<or>
      (fst (detect_camera e) \<noteq> - 1 \<and>
         ((release_raises u \<and> capture_open e (fst (detect_camera e)) \<noteq> Raises) \<or>
          (\<not> truthy (fst (capture_image e (fst (detect_camera e)))) \<and>
             box_raises u NoticeCaptureFailed) \<or>
          sleep_raises u \<or>
          (\<not> fst (lock_workstation e) \<and> box_raises u NoticeLockFailed)))) \<and>
   app_run_try no_faults e = (Returns (), snd (run e))"
proof -
  have m: "main u e =
      (case windll_load e of
         Raises \<Rightarrow> (1, startup_failed e)
       | Returns _ \<Rightarrow>
           (if fst (app_run_try u e) \<noteq> Raises then (0, snd (app_run_try u e))
            else if box_raises u NoticeRunError
            then (1, snd (app_run_try u e) @ [Dialog NoticeRunError] @ startup_failed e)
            else (0, snd (app_run_try u e) @ [Dialog NoticeRunError])))"
    by (cases "fst (app_run_try u e)")
       (simp_all add: main_def app_run_def show_message_def split: outcome.splits)
  have "(fst (main u e) = 1 \<longleftrightarrow>
           windll_load e = Raises \<or>
           (fst (app_run_try u e) = Raises \<and> box_raises u NoticeRunError)) \<and>
        (fst (main u e) = 0 \<longleftrightarrow>
           windll_load e \<noteq> Raises \<and>
           (fst (app_run_try u e) \<noteq> Raises \<or> \<not> box_raises u NoticeRunError)) \<and>
        (windll_load e = Raises \<longrightarrow> snd (main u e) = startup_failed e) \<and>
        (windll_load e \<noteq> Raises \<and> fst (app_run_try u e) \<noteq> Raises \<longrightarrow>
           main u e = (0, snd (app_run_try u e))) \<and>
        (windll_load e \<noteq> Raises \<and> fst (app_run_try u e) = Raises \<and>
         \<not> box_raises u NoticeRunError \<longrightarrow>
           main u e = (0, snd (app_run_try u e) @ [Dialog NoticeRunError])) \<and>
        (windll_load e \<noteq> Raises \<and> fst (app_run_try u e) = Raises \<and>
         box_raises u NoticeRunError \<longrightarrow>
           main u e = (1, snd (app_run_try u e) @ [Dialog NoticeRunError] @ startup_failed e))"
    by (cases "windll_load e") (simp_all add: m)
  then show ?thesis
    using app_run_try_raises [of u e] run_returns [of e] by blast
qed

text \<open>
  Without \<open>User32.dll\<close> the exit code is 1; after a cancelled confirmation, with nothing
  raising, it is 0; when the opening notice raises and the error message of the handler
  returns it is 0, and when every message box raises it is 1.
\<close>

theorem main_exit_code_witness:
  "windll_load no_user32 = Raises \<and> fst (main no_faults no_user32) = 1 \<and>
   snd (main no_faults no_user32) = [Dialog NoticeStartupFailed, Print] \<and>
   windll_load no_camera_cancel \<noteq> Raises \<and>
   main no_faults no_camera_cancel = (0, snd (run no_camera_cancel)) \<and>
   fst (app_run_try first_box_raises all_fine) = Raises \<and>
   main first_box_raises all_fine = (0, [Dialog NoticeStart, Dialog NoticeRunError]) \<and>
   fst (main broken_boxes all_fine) = 1"
proof -
  have a: "windll_load no_user32 = Raises"
    and b: "startup_failed no_user32 = [Dialog NoticeStartupFailed, Print]"
    by (simp_all add: no_user32_def all_fine_def startup_failed_def)
  have c: "windll_load no_camera_cancel \<noteq> Raises" and d: "windll_load all_fine \<noteq> Raises"
    by (simp_all add: no_camera_cancel_def no_camera_def all_fine_def)
  have f: "box_raises first_box_raises NoticeStart" "\<not> box_raises first_box_raises NoticeRunError"
    "box_raises broken_boxes NoticeStart" "box_raises broken_boxes NoticeRunError"
    "\<And>d. \<not> box_raises no_faults d" "\<not> sleep_raises no_faults" "\<not> release_raises no_faults"
    by (simp_all add: first_box_raises_def broken_boxes_def no_faults_def)
  have t: "snd (app_run_try first_box_raises all_fine) = [Dialog NoticeStart]"
    by (simp add: app_run_try_def and_then_def show_message_def f)
  show ?thesis
    using main_exit_code [of no_faults no_user32] main_exit_code [of no_faults no_camera_cancel]
      main_exit_code [of first_box_raises all_fine] main_exit_code [of broken_boxes all_fine]
      a b c d f t
    by simp
qed

text \<open>
  C7, as the specification states it, fails: on a machine where the initialisation
  succeeds and every message box raises, the opening notice raises, the handler of
  \<open>run\<close> shows its error message, which raises too, and \<open>main\<close> ends the process with
  exit code 1 after its own message and the printed fallback.
\<close>

theorem main_exit_code_counterexample:
  "windll_load no_message_boxes = Returns () \<and>
   main broken_boxes no_message_boxes =
     (1, [Dialog NoticeStart, Dialog NoticeRunError, Dialog NoticeStartupFailed, Print])"
  by (simp add: main_def app_run_def app_run_try_def and_then_def show_message_def
      startup_failed_def broken_boxes_def no_faults_def no_message_boxes_def all_fine_def)

section \<open>At most one camera handle\<close>

lemma exclusive_append:
  "exclusive s (a @ b) = (exclusive s a \<and> exclusive (foldl track s a) b)"
proof (induction a arbitrary: s)
  case Nil
  show ?case by (cases b) auto
next
  case (Cons x a)
  then show ?case by auto
qed

lemma exclusive_length: "exclusive s tr \<Longrightarrow> length s \<le> 1"
  by (cases tr) auto

lemma exclusive_final: "exclusive s tr \<Longrightarrow> length (foldl track s tr) \<le> 1"
  by (induction tr arbitrary: s) auto

lemma exclusive_take: "exclusive s tr \<Longrightarrow> exclusive s (take n tr)"
proof (induction tr arbitrary: s n)
  case Nil
  then show ?case by simp
next
  case (Cons ev tr)
  then show ?case by (cases n) auto
qed

lemma exclusive_nth:
  "exclusive s tr \<Longrightarrow> n < length tr \<Longrightarrow> is_opening (tr ! n) \<Longrightarrow> foldl track s (take n tr) = []"
proof (induction tr arbitrary: s n)
  case Nil
  then show ?case by simp
next
  case (Cons ev tr)
  then show ?case by (cases n) auto
qed

lemma exclusive_neutral:
  "\<forall>ev\<in>set tr. neutral ev \<Longrightarrow> length s \<le> 1 \<Longrightarrow> exclusive s tr"
proof (induction tr arbitrary: s)
  case Nil
  then show ?case by simp
next
  case (Cons ev tr)
  then have "neutral ev" by simp
  then have "track s ev = s" "\<not> is_opening ev"
    by (cases ev; simp)+
  with Cons show ?case by simp
qed

lemma probe_exclusive:
  "exclusive [] (snd (probe e xs)) \<and>
   (fst (probe e xs) \<noteq> - 1 \<longrightarrow> foldl track [] (snd (probe e xs)) = [])"
proof (induction xs)
  case Nil
  then show ?case by simp
next
  case (Cons x xs)
  consider "works e x" | "probe_raises e x" | "\<not> works e x" "\<not> probe_raises e x"
    by blast
  then show ?case
  proof cases
    case 1
    then show ?thesis by (simp add: probe_hit del: probe.simps)
  next
    case 2
    then show ?thesis by (auto simp: probe_raises_def split: outcome.splits)
  next
    case 3
    then show ?thesis using Cons
      by (auto simp: works_def probe_raises_def exclusive_append split: outcome.splits)
  qed
qed

lemma capture_image_exclusive:
  "exclusive [] (snd (capture_image e k)) \<and> foldl track [] (snd (capture_image e k)) = []"
proof (cases "capture_open e k")
  case Raises
  then show ?thesis by (simp add: capture_image_def)
next
  case (Returns opened)
  let ?body = "snd (capture_body e k opened)"
  have n: "\<forall>ev\<in>set ?body. neutral ev"
    using capture_body_neutral [of e k opened] by blast
  have tr: "snd (capture_image e k) = [Open (Capt k) opened] @ ?body @ [Release (Capt k)]"
    using Returns by (simp add: capture_image_def)
  show ?thesis
    unfolding tr exclusive_append
    using n by (simp add: foldl_track_neutral exclusive_neutral)
qed


lemma detect_camera_exclusive:
  "exclusive [] (snd (detect_camera e))"
  "fst (detect_camera e) \<noteq> - 1 \<Longrightarrow> foldl track [] (snd (detect_camera e)) = []"
  using probe_exclusive [of e "[0, 1, 2, 3, 4]"] by (simp_all add: detect_camera_def)

lemma exclusive_prefix: "prefix p tr \<Longrightarrow> exclusive s tr \<Longrightarrow> exclusive s p"
  by (auto simp: prefix_def exclusive_append)

lemma run_exclusive: "exclusive [] (snd (run e))"
proof (cases "fst (detect_camera e) = - 1")
  case True
  let ?rest = "[Dialog ConfirmNoCamera] @
       (if confirm_answer e \<noteq> 1 then []
        else [Sleep 1000, CallLock, LockWorkStation] @
             (if fst (lock_workstation e) then [] else [Dialog NoticeLockFailed]))"
  have tr: "snd (run e) = [Dialog NoticeStart, CallDetect] @ snd (detect_camera e) @ ?rest"
    using run_no_camera [OF True] by simp
  have "length (foldl track [] (snd (detect_camera e))) \<le> 1"
    using detect_camera_exclusive(1) by (rule exclusive_final)
  moreover have "\<forall>ev\<in>set ?rest. neutral ev"
    by simp
  ultimately have "exclusive (foldl track [] (snd (detect_camera e))) ?rest"
    by (simp only: exclusive_neutral)
  then show ?thesis
    unfolding tr exclusive_append using detect_camera_exclusive(1) [of e] by simp
next
  case False
  let ?k = "fst (detect_camera e)"
  let ?rest = "(if truthy (fst (capture_image e ?k)) then [] else [Dialog NoticeCaptureFailed]) @
       [Sleep 1000, CallLock, LockWorkStation] @
       (if fst (lock_workstation e) then [] else [Dialog NoticeLockFailed])"
  have tr: "snd (run e) =
      [Dialog NoticeStart, CallDetect] @ snd (detect_camera e) @ [CallCapture ?k] @
      snd (capture_image e ?k) @ ?rest"
    using run_camera [OF False] by simp
  have "\<forall>ev\<in>set ?rest. neutral ev"
    by simp
  then have "exclusive [] ?rest"
    by (simp only: exclusive_neutral list.size)
  then show ?thesis
    unfolding tr exclusive_append
    using detect_camera_exclusive [of e] False capture_image_exclusive [of e ?k] by simp
qed

lemma app_run_try_prefix: "prefix (snd (app_run_try u e)) (snd (run e))"
proof -
  have "prefix (snd (app_run_try u e)) (snd (app_run_try no_faults e))"
    by (simp add: app_run_try_def capture_and_lock_def call_capture_image_def show_message_def
        and_then_def no_faults_def)
  then show ?thesis
    by (simp add: run_returns)
qed

lemma app_run_exclusive: "exclusive [] (snd (app_run u e))"
proof -
  have t: "exclusive [] (snd (app_run_try u e))"
    using app_run_try_prefix run_exclusive by (rule exclusive_prefix)
  then have "length (foldl track [] (snd (app_run_try u e))) \<le> 1"
    by (rule exclusive_final)
  then have "exclusive (foldl track [] (snd (app_run_try u e))) [Dialog NoticeRunError]"
    by (intro exclusive_neutral) simp_all
  with t show ?thesis
    by (cases "fst (app_run_try u e)") (simp_all add: app_run_def show_message_def exclusive_append)
qed

lemma main_exclusive: "exclusive [] (snd (main u e))"
proof -
  have n: "\<forall>ev\<in>set (startup_failed e). neutral ev"
    by (simp add: startup_failed_def split: outcome.splits)
  have r: "exclusive [] (snd (app_run u e))"
    by (rule app_run_exclusive)
  then have "length (foldl track [] (snd (app_run u e))) \<le> 1"
    by (rule exclusive_final)
  with n have "exclusive (foldl track [] (snd (app_run u e))) (startup_failed e)"
    by (intro exclusive_neutral)
  with r have a: "exclusive [] (snd (app_run u e) @ startup_failed e)"
    by (simp add: exclusive_append)
  have b: "exclusive [] (startup_failed e)"
    using n by (intro exclusive_neutral) simp_all
  show ?thesis
    using a b r by (simp add: main_def split: outcome.splits)
qed

text \<open>
  The bound on the open handles holds in every environment, whatever raises: after any
  number \<open>n\<close> of the calls of a run of the program at most one camera handle is open,
  and whenever a constructor call opens a device no handle is open at that moment.
  When the Locator returns an index no handle is open, and the Capturer leaves none
  open.
\<close>

lemma at_most_one_handle_open:
  "length (open_handles (take n (snd (main u e)))) \<le> 1 \<and>
   (n < length (snd (main u e)) \<and> is_opening (snd (main u e) ! n) \<longrightarrow>
      open_handles (take n (snd (main u e))) = []) \<and>
   (fst (detect_camera e) \<noteq> - 1 \<longrightarrow> open_handles (snd (detect_camera e)) = []) \<and>
   open_handles (snd (capture_image e k)) = []"
proof -
  have "length (open_handles (take n (snd (main u e)))) \<le> 1"
    unfolding open_handles_def
    using main_exclusive [of u e] by (intro exclusive_final exclusive_take)
  moreover have "open_handles (take n (snd (main u e))) = []"
    if "n < length (snd (main u e))" "is_opening (snd (main u e) ! n)"
    unfolding open_handles_def using main_exclusive [of u e] that by (rule exclusive_nth)
  ultimately show ?thesis
    using detect_camera_exclusive(2) [of e] capture_image_exclusive [of e k]
    by (simp add: open_handles_def)
qed

text \<open>
  C9, at the input where the code breaks it. Camera 0 does not open, camera 1 opens and
  its read raises: the Locator leaves through its \<open>except\<close> clause and returns NONE
  without a single \<open>release\<close>, so the device of camera 1 is still open when it returns,
  and it stays open to the end of the run, which goes on to lock the session. The
  other exits of the probe loop release the device, and so does \<open>capture_image\<close> in its
  \<open>finally\<close> clause.
\<close>

theorem detect_camera_returns_unreleased:
  "detect_camera second_read_raises =
     (- 1, [Open (Probe 0) False, Open (Probe 1) True, Read (Probe 1)]) \<and>
   filter is_release (snd (detect_camera second_read_raises)) = [] \<and>
   open_handles (snd (detect_camera second_read_raises)) = [Probe 1] \<and>
   snd (main no_faults second_read_raises) =
     [Dialog NoticeStart, CallDetect, Open (Probe 0) False, Open (Probe 1) True,
      Read (Probe 1), Dialog ConfirmNoCamera, Sleep 1000, CallLock, LockWorkStation] \<and>
   open_handles (snd (main no_faults second_read_raises)) = [Probe 1]"
proof -
  have d: "detect_camera second_read_raises =
      (- 1, [Open (Probe 0) False, Open (Probe 1) True, Read (Probe 1)])"
    by (simp add: detect_camera_def second_read_raises_def all_fine_def emit_def)
  have e: "confirm_answer second_read_raises = 1" "windll_load second_read_raises = Returns ()"
    "fst (lock_workstation second_read_raises)"
    by (simp_all add: second_read_raises_def all_fine_def lock_workstation_def)
  have m: "snd (main no_faults second_read_raises) = snd (run second_read_raises)"
    by (simp add: main_def e app_run_no_faults)
  have "fst (detect_camera second_read_raises) = - 1"
    by (simp add: d)
  from run_no_camera [OF this]
  have r: "snd (run second_read_raises) =
      [Dialog NoticeStart, CallDetect, Open (Probe 0) False, Open (Probe 1) True,
       Read (Probe 1), Dialog ConfirmNoCamera, Sleep 1000, CallLock, LockWorkStation]"
    unfolding d by (simp add: e)
  show ?thesis
    unfolding m r d by (simp add: open_handles_def)
qed

end
